theory Spec2Isabelle
  imports Main "HOL-Library.Word"
begin

section \<open>The dns-01 challenge of lego: challenge/dns01/dns_challenge.go\<close>

text \<open>
  The theory embeds the Go file \<^verbatim>\<open>challenge/dns01/dns_challenge.go\<close>. Pure functions
  become HOL functions. Everything the Go code does to the outside (a DNS query, a log
  line, a sleep, a call of the provider, of the propagation check or of the validator) is
  an event appended to a history; the answer of an outside party is a function of the
  history so far, so that an outside party may answer differently each time it is asked.
\<close>

subsection \<open>Bytes, errors, durations\<close>

type_synonym byte = "8 word"
type_synonym uint32 = "32 word"
type_synonym uint64 = "64 word"

text \<open>A Go string is a sequence of bytes; \<^verbatim>\<open>[]byte(s)\<close> reads them off.\<close>

definition bytes_of_string :: "string \<Rightarrow> byte list" where
  "bytes_of_string s = map of_char s"

text \<open>
  Go's \<^verbatim>\<open>error\<close> values: \<open>Err msg\<close> is an error with the text \<open>msg\<close>;
  \<open>Wrap prefix e\<close> is \<^verbatim>\<open>fmt.Errorf(prefix + "%w", e)\<close>, whose text is the prefix
  followed by the text of \<open>e\<close> and which unwraps to \<open>e\<close>.
\<close>

datatype error = Err string | Wrap string error

fun Error :: "error \<Rightarrow> string" where
  "Error (Err msg) = msg"
| "Error (Wrap prefix e) = prefix @ Error e"

text \<open>\<^verbatim>\<open>time.Duration\<close> counts nanoseconds.\<close>

type_synonym Duration = int

definition Second :: Duration where
  "Second = 1000000000"

definition DefaultPropagationTimeout :: Duration where
  "DefaultPropagationTimeout = 60 * Second"

definition DefaultPollingInterval :: Duration where
  "DefaultPollingInterval = 2 * Second"

subsection \<open>crypto/sha256: Sum256\<close>

text \<open>
  \<^verbatim>\<open>sha256.Sum256\<close> of the Go standard library, after its generic block function:
  the message is padded with 0x80, zero bytes up to 56 modulo 64 and the bit length as
  eight big-endian bytes; each block of 64 bytes is expanded to 64 words and run through
  64 rounds; the eight chaining words are written out big-endian.
\<close>

definition sha256_Size :: nat where
  "sha256_Size = 32"

definition RotateRight32 :: "uint32 \<Rightarrow> nat \<Rightarrow> uint32" where
  "RotateRight32 x k = or (drop_bit k x) (push_bit (32 - k) x)"

text \<open>The table \<^verbatim>\<open>_K\<close>, eight rounds to a row.\<close>

definition sha256_K :: "uint32 list" where
  "sha256_K = concat
    [[0x428a2f98, 0x71374491, 0xb5c0fbcf, 0xe9b5dba5, 0x3956c25b, 0x59f111f1, 0x923f82a4, 0xab1c5ed5],
     [0xd807aa98, 0x12835b01, 0x243185be, 0x550c7dc3, 0x72be5d74, 0x80deb1fe, 0x9bdc06a7, 0xc19bf174],
     [0xe49b69c1, 0xefbe4786, 0x0fc19dc6, 0x240ca1cc, 0x2de92c6f, 0x4a7484aa, 0x5cb0a9dc, 0x76f988da],
     [0x983e5152, 0xa831c66d, 0xb00327c8, 0xbf597fc7, 0xc6e00bf3, 0xd5a79147, 0x06ca6351, 0x14292967],
     [0x27b70a85, 0x2e1b2138, 0x4d2c6dfc, 0x53380d13, 0x650a7354, 0x766a0abb, 0x81c2c92e, 0x92722c85],
     [0xa2bfe8a1, 0xa81a664b, 0xc24b8b70, 0xc76c51a3, 0xd192e819, 0xd6990624, 0xf40e3585, 0x106aa070],
     [0x19a4c116, 0x1e376c08, 0x2748774c, 0x34b0bcb5, 0x391c0cb3, 0x4ed8aa4a, 0x5b9cca4f, 0x682e6ff3],
     [0x748f82ee, 0x78a5636f, 0x84c87814, 0x8cc70208, 0x90befffa, 0xa4506ceb, 0xbef9a3f7, 0xc67178f2]]"

type_synonym sha256_digest =
  "uint32 \<times> uint32 \<times> uint32 \<times> uint32 \<times> uint32 \<times> uint32 \<times> uint32 \<times> uint32"

definition sha256_init :: sha256_digest where
  "sha256_init =
     (0x6a09e667, 0xbb67ae85, 0x3c6ef372, 0xa54ff53a,
      0x510e527f, 0x9b05688c, 0x1f83d9ab, 0x5be0cd19)"

text \<open>The first 16 words of the schedule: the block read as big-endian words.\<close>

fun sha256_load :: "byte list \<Rightarrow> uint32 list" where
  "sha256_load (b0 # b1 # b2 # b3 # p) =
     or (or (or (push_bit 24 (ucast b0)) (push_bit 16 (ucast b1))) (push_bit 8 (ucast b2)))
        (ucast b3) # sha256_load p"
| "sha256_load _ = []"

text \<open>The loop \<^verbatim>\<open>for i := 16; i < 64; i++\<close>, with \<open>i = length w\<close>.\<close>

fun sha256_schedule :: "nat \<Rightarrow> uint32 list \<Rightarrow> uint32 list" where
  "sha256_schedule 0 w = w"
| "sha256_schedule (Suc n) w =
     (let i = length w;
          v1 = w ! (i - 2);
          t1 = xor (xor (RotateRight32 v1 17) (RotateRight32 v1 19)) (drop_bit 10 v1);
          v2 = w ! (i - 15);
          t2 = xor (xor (RotateRight32 v2 7) (RotateRight32 v2 18)) (drop_bit 3 v2)
      in sha256_schedule n (w @ [t1 + w ! (i - 7) + t2 + w ! (i - 16)]))"

fun sha256_round :: "sha256_digest \<Rightarrow> uint32 \<times> uint32 \<Rightarrow> sha256_digest" where
  "sha256_round (a, b, c, d, e, f, g, h) (k, w) =
     (let t1 = h + xor (xor (RotateRight32 e 6) (RotateRight32 e 11)) (RotateRight32 e 25)
                 + xor (and e f) (and (not e) g) + k + w;
          t2 = xor (xor (RotateRight32 a 2) (RotateRight32 a 13)) (RotateRight32 a 22)
                 + xor (xor (and a b) (and a c)) (and b c)
      in (t1 + t2, a, b, c, d + t1, e, f, g))"

fun sha256_add :: "sha256_digest \<Rightarrow> sha256_digest \<Rightarrow> sha256_digest" where
  "sha256_add (h0, h1, h2, h3, h4, h5, h6, h7) (a, b, c, d, e, f, g, h) =
     (h0 + a, h1 + b, h2 + c, h3 + d, h4 + e, h5 + f, h6 + g, h7 + h)"

definition sha256_block :: "sha256_digest \<Rightarrow> byte list \<Rightarrow> sha256_digest" where
  "sha256_block dig p =
     sha256_add dig (foldl sha256_round dig (zip sha256_K (sha256_schedule 48 (sha256_load p))))"

function blockGeneric :: "sha256_digest \<Rightarrow> byte list \<Rightarrow> sha256_digest" where
  "blockGeneric dig p =
     (if length p \<ge> 64 then blockGeneric (sha256_block dig (take 64 p)) (drop 64 p) else dig)"
  by pat_completeness auto
termination
  by (relation "measure (\<lambda>(dig, p). length p)") auto

definition PutUint64 :: "uint64 \<Rightarrow> byte list" where
  "PutUint64 v = map (\<lambda>i. ucast (drop_bit (8 * i) v)) [7, 6, 5, 4, 3, 2, 1, 0]"

definition PutUint32 :: "uint32 \<Rightarrow> byte list" where
  "PutUint32 v = map (\<lambda>i. ucast (drop_bit (8 * i) v)) [3, 2, 1, 0]"

definition sha256_padding :: "nat \<Rightarrow> byte list" where
  "sha256_padding len =
     (0x80 # replicate ((if len mod 64 < 56 then 56 - len mod 64 else 64 + 56 - len mod 64) - 1) 0)
     @ PutUint64 (push_bit 3 (of_nat len))"

fun sha256_bytes :: "sha256_digest \<Rightarrow> byte list" where
  "sha256_bytes (h0, h1, h2, h3, h4, h5, h6, h7) =
     concat (map PutUint32 [h0, h1, h2, h3, h4, h5, h6, h7])"

definition Sum256 :: "byte list \<Rightarrow> byte list" where
  "Sum256 data = sha256_bytes (blockGeneric sha256_init (data @ sha256_padding (length data)))"

subsection \<open>encoding/base64: RawURLEncoding.EncodeToString\<close>

definition encodeURL :: string where
  "encodeURL = ''ABCDEFGHIJKLMNOPQRSTUVWXYZabcdefghijklmnopqrstuvwxyz0123456789-_''"

definition base64_char :: "uint32 \<Rightarrow> char" where
  "base64_char v = encodeURL ! unat (and v 0x3F)"

text \<open>
  Three bytes give four characters; a rest of two bytes gives three characters and a
  rest of one byte two: the raw encodings write no padding character.
\<close>

fun RawURLEncoding_EncodeToString :: "byte list \<Rightarrow> string" where
  "RawURLEncoding_EncodeToString (b0 # b1 # b2 # src) =
     (let val = or (or (push_bit 16 (ucast b0)) (push_bit 8 (ucast b1))) (ucast b2)
      in base64_char (drop_bit 18 val) # base64_char (drop_bit 12 val)
         # base64_char (drop_bit 6 val) # base64_char val
         # RawURLEncoding_EncodeToString src)"
| "RawURLEncoding_EncodeToString [b0, b1] =
     (let val = or (push_bit 16 (ucast b0)) (push_bit 8 (ucast b1))
      in [base64_char (drop_bit 18 val), base64_char (drop_bit 12 val),
          base64_char (drop_bit 6 val)])"
| "RawURLEncoding_EncodeToString [b0] =
     (let val = push_bit 16 (ucast b0)
      in [base64_char (drop_bit 18 val), base64_char (drop_bit 12 val)])"
| "RawURLEncoding_EncodeToString [] = []"

subsection \<open>strconv.ParseBool and os.Getenv\<close>

definition ErrSyntax :: error where
  "ErrSyntax = Err ''invalid syntax''"

text \<open>
  \<^verbatim>\<open>strconv.ParseBool\<close> returns the pair of a value and an error, the value being
  \<^verbatim>\<open>false\<close> whenever there is an error.
\<close>

definition ParseBool :: "string \<Rightarrow> bool \<times> error option" where
  "ParseBool str =
     (if str \<in> set [''1'', ''t'', ''T'', ''true'', ''TRUE'', ''True''] then (True, None)
      else if str \<in> set [''0'', ''f'', ''F'', ''false'', ''FALSE'', ''False''] then (False, None)
      else (False, Some ErrSyntax))"

subsection \<open>The types of the acme and dns packages that the file uses\<close>

text \<open>
  Of \<^verbatim>\<open>acme.Challenge\<close>, \<^verbatim>\<open>acme.Identifier\<close> and \<^verbatim>\<open>acme.Authorization\<close> the
  fields that tell one value from another in this file; of \<^verbatim>\<open>dns.Msg\<close> the response
  code and the answer section, where a resource record is a CNAME record with its target
  or a record of another type.
\<close>

record acme_Challenge =
  Type :: string
  Token :: string
  KeyAuthorization :: string

record acme_Identifier =
  id_Type :: string
  id_Value :: string

record acme_Authorization =
  Identifier :: acme_Identifier
  Challenges :: "acme_Challenge list"
  Wildcard :: bool

datatype dns_RR = CNAME string | OtherRR

record dns_Msg =
  Rcode :: int
  Answer :: "dns_RR list"

definition RcodeSuccess :: int where
  "RcodeSuccess = 0"

definition TypeCNAME :: nat where
  "TypeCNAME = 5"

definition DNS01 :: string where
  "DNS01 = ''dns-01''"

subsection \<open>The outside world\<close>

text \<open>
  One event for each effect of the file, in the order in which they happen:
  \<^item> \<open>EvLog format args\<close>: \<^verbatim>\<open>log.Infof(format, args...)\<close>;
  \<^item> \<open>EvSleep d\<close>: \<^verbatim>\<open>time.Sleep(d)\<close>;
  \<^item> \<open>EvDnsQuery fqdn rtype nameservers recursive\<close>: a call of \<^verbatim>\<open>dnsQuery\<close>;
  \<^item> \<open>EvPresent domain token keyAuth\<close> and \<open>EvCleanUp domain token keyAuth\<close>: the two
    calls of the provider;
  \<^item> \<open>EvPreCheck domain fqdn value\<close>: a call of \<^verbatim>\<open>preCheck.call\<close>;
  \<^item> \<open>EvValidate domain chlng\<close>: a call of the validate function.
\<close>

datatype event =
    EvLog string "string list"
  | EvSleep Duration
  | EvDnsQuery string nat "string list" bool
  | EvPresent string string string
  | EvCleanUp string string string
  | EvPreCheck string string string
  | EvValidate string acme_Challenge

type_synonym world = "event list"

text \<open>
  What the file reads from its process and from the rest of the package, none of which is
  in this file: the process environment, the package variable
  \<^verbatim>\<open>recursiveNameservers\<close>, the function \<^verbatim>\<open>dnsQuery\<close> (its pair of a message and an
  error is a sum: an error, or else a message), the clock, the functions
  \<^verbatim>\<open>challenge.GetTargetedDomain\<close> and \<^verbatim>\<open>challenge.FindChallenge\<close>, and the error that
  \<^verbatim>\<open>wait.For\<close> makes of its label when the time is up.
\<close>

record sys =
  environ :: "string \<rightharpoonup> string"
  recursiveNameservers :: "string list"
  dnsQuery :: "world \<Rightarrow> string \<Rightarrow> nat \<Rightarrow> string list \<Rightarrow> bool \<Rightarrow> error + dns_Msg"
  time_Now :: "world \<Rightarrow> int"
  GetTargetedDomain :: "acme_Authorization \<Rightarrow> string"
  FindChallenge :: "string \<Rightarrow> acme_Authorization \<Rightarrow> error + acme_Challenge"
  time_limit_exceeded :: "string \<Rightarrow> error"

text \<open>\<^verbatim>\<open>os.Getenv\<close>: the value of the variable, empty when the variable is not there.\<close>

definition os_Getenv :: "sys \<Rightarrow> string \<Rightarrow> string" where
  "os_Getenv s key = (case environ s key of None \<Rightarrow> [] | Some v \<Rightarrow> v)"

definition log_Infof :: "string \<Rightarrow> string list \<Rightarrow> world \<Rightarrow> world" where
  "log_Infof format args w = w @ [EvLog format args]"

definition time_Sleep :: "Duration \<Rightarrow> world \<Rightarrow> world" where
  "time_Sleep d w = w @ [EvSleep d]"

subsection \<open>ChallengeInfo, getChallengeFQDN, GetChallengeInfo, GetRecord\<close>

record ChallengeInfo =
  FQDN :: string
  EffectiveFQDN :: string
  Value :: string

fun first_CNAME :: "dns_RR list \<Rightarrow> string option" where
  "first_CNAME [] = None"
| "first_CNAME (CNAME target # rrs) = Some target"
| "first_CNAME (OtherRR # rrs) = first_CNAME rrs"

text \<open>
  Modelled from the spec: \<^verbatim>\<open>updateDomainWithCName\<close> is called here and defined in
  another file of the package. The spec's resolver returns the current name when the
  response has no CNAME answer and advances to the CNAME target otherwise.
\<close>

definition updateDomainWithCName :: "dns_Msg \<Rightarrow> string \<Rightarrow> string" where
  "updateDomainWithCName r fqdn =
     (case first_CNAME (Answer r) of None \<Rightarrow> fqdn | Some target \<Rightarrow> target)"

text \<open>
  The loop \<^verbatim>\<open>for limit := 0; limit < 50; limit++\<close> of \<^verbatim>\<open>getChallengeFQDN\<close>, from the
  values of \<open>limit\<close> and \<open>fqdn\<close> at the head of an iteration.
\<close>

function followCNAMEs :: "sys \<Rightarrow> nat \<Rightarrow> string \<Rightarrow> world \<Rightarrow> string \<times> world" where
  "followCNAMEs s limit fqdn w =
     (if limit < 50 then
        (let w1 = w @ [EvDnsQuery fqdn TypeCNAME (recursiveNameservers s) True]
         in case dnsQuery s w fqdn TypeCNAME (recursiveNameservers s) True of
              Inl err \<Rightarrow> (fqdn, w1)
            | Inr r \<Rightarrow>
                if Rcode r \<noteq> RcodeSuccess then (fqdn, w1)
                else (let cname = updateDomainWithCName r fqdn
                      in if cname = fqdn then (fqdn, w1)
                         else followCNAMEs s (limit + 1) cname
                                (log_Infof ''Found CNAME entry for %q: %q'' [fqdn, cname] w1)))
      else (fqdn, w))"
  by pat_completeness auto
termination
  by (relation "measure (\<lambda>(s, limit, fqdn, w). 50 - limit)") auto

definition getChallengeFQDN :: "sys \<Rightarrow> string \<Rightarrow> bool \<Rightarrow> world \<Rightarrow> string \<times> world" where
  "getChallengeFQDN s domain followCNAME w =
     (let fqdn = ''_acme-challenge.'' @ domain @ ''.''
      in if \<not> followCNAME then (fqdn, w) else followCNAMEs s 0 fqdn w)"

definition GetChallengeInfo :: "sys \<Rightarrow> string \<Rightarrow> string \<Rightarrow> world \<Rightarrow> ChallengeInfo \<times> world" where
  "GetChallengeInfo s domain keyAuth w =
     (let keyAuthShaBytes = Sum256 (bytes_of_string keyAuth);
          val = RawURLEncoding_EncodeToString (take sha256_Size keyAuthShaBytes);
          ok = fst (ParseBool (os_Getenv s ''LEGO_DISABLE_CNAME_SUPPORT''));
          (fqdn, w1) = getChallengeFQDN s domain False w;
          (effective, w2) = getChallengeFQDN s domain (\<not> ok) w1
      in (\<lparr>FQDN = fqdn, EffectiveFQDN = effective, Value = val\<rparr>, w2))"

definition GetRecord :: "sys \<Rightarrow> string \<Rightarrow> string \<Rightarrow> world \<Rightarrow> (string \<times> string) \<times> world" where
  "GetRecord s domain keyAuth w =
     (let (info, w1) = GetChallengeInfo s domain keyAuth w
      in ((EffectiveFQDN info, Value info), w1))"

subsection \<open>The provider, the core and the Challenge\<close>

text \<open>
  A \<^verbatim>\<open>challenge.Provider\<close> has the methods \<^verbatim>\<open>Present\<close> and \<^verbatim>\<open>CleanUp\<close>. It may
  also implement \<^verbatim>\<open>challenge.ProviderTimeout\<close> (a method \<^verbatim>\<open>Timeout\<close> returning a
  timeout and an interval) and the interface \<^verbatim>\<open>sequential\<close> of this file (a method
  \<^verbatim>\<open>Sequential\<close> returning a duration): \<open>None\<close> is a provider without the method.
\<close>

record Provider =
  Present :: "world \<Rightarrow> string \<Rightarrow> string \<Rightarrow> string \<Rightarrow> error option"
  Provider_CleanUp :: "world \<Rightarrow> string \<Rightarrow> string \<Rightarrow> string \<Rightarrow> error option"
  Timeout :: "(Duration \<times> Duration) option"
  Provider_Sequential :: "Duration option"

record Core =
  GetKeyAuthorization :: "string \<Rightarrow> error + string"

text \<open>
  The struct \<^verbatim>\<open>Challenge\<close>. The field \<open>provider\<close> is an interface value and may be
  \<^verbatim>\<open>nil\<close> (\<open>None\<close>); \<open>preCheck\<close> stands for the method \<^verbatim>\<open>preCheck.call\<close>.
\<close>

record Challenge =
  core :: Core
  validate :: "world \<Rightarrow> Core \<Rightarrow> string \<Rightarrow> acme_Challenge \<Rightarrow> error option"
  provider :: "Provider option"
  preCheck :: "world \<Rightarrow> string \<Rightarrow> string \<Rightarrow> string \<Rightarrow> bool \<times> error option"
  dnsTimeout :: Duration

datatype panic = NilPointerDereference

subsection \<open>PreSolve, Solve, CleanUp, Sequential\<close>

definition PreSolve :: "sys \<Rightarrow> Challenge \<Rightarrow> acme_Authorization \<Rightarrow> world \<Rightarrow> error option \<times> world" where
  "PreSolve s c authz w =
     (let domain = GetTargetedDomain s authz;
          w1 = log_Infof ''[%s] acme: Preparing to solve DNS-01'' [domain] w
      in case FindChallenge s DNS01 authz of
           Inl err \<Rightarrow> (Some err, w1)
         | Inr chlng \<Rightarrow>
            (case provider c of
               None \<Rightarrow> (Some (Err (''['' @ domain @ ''] acme: no DNS Provider configured'')), w1)
             | Some p \<Rightarrow>
                (case GetKeyAuthorization (core c) (Token chlng) of
                   Inl err \<Rightarrow> (Some err, w1)
                 | Inr keyAuth \<Rightarrow>
                    (let w2 = w1 @ [EvPresent (id_Value (Identifier authz)) (Token chlng) keyAuth]
                     in case Present p w1 (id_Value (Identifier authz)) (Token chlng) keyAuth of
                          Some err \<Rightarrow>
                            (Some (Wrap (''['' @ domain @ ''] acme: error presenting token: '') err), w2)
                        | None \<Rightarrow> (None, w2)))))"

text \<open>
  Modelled from the spec: \<^verbatim>\<open>wait.For\<close> (package platform/wait) is called here and
  defined elsewhere. The spec's polling coordinator has one loop with the transitions:
  satisfied, success; unsatisfied with time remaining, sleep for the interval and retry;
  unsatisfied with the time exhausted, the timeout error; a check error with the time
  exhausted, that error. The sleep before the first check that the spec describes is the
  \<^verbatim>\<open>time.Sleep(interval)\<close> of \<open>Solve\<close> itself and is not repeated here. The loop may run
  forever (a clock that stands still): not returning is \<open>None\<close>.
\<close>

partial_function (option) wait_loop ::
  "sys \<Rightarrow> string \<Rightarrow> int \<Rightarrow> Duration \<Rightarrow> (world \<Rightarrow> (bool \<times> error option) \<times> world) \<Rightarrow> world
     \<Rightarrow> (error option \<times> world) option" where
  "wait_loop s msg deadline interval f w =
     (let r = f w; stop = fst (fst r); err = snd (fst r); w1 = snd r
      in if stop then Some (None, w1)
         else if time_Now s w1 < deadline
              then wait_loop s msg deadline interval f (time_Sleep interval w1)
              else (case err of
                      None \<Rightarrow> Some (Some (time_limit_exceeded s msg), w1)
                    | Some e \<Rightarrow> Some (Some e, w1)))"

definition wait_For ::
  "sys \<Rightarrow> string \<Rightarrow> Duration \<Rightarrow> Duration \<Rightarrow> (world \<Rightarrow> (bool \<times> error option) \<times> world) \<Rightarrow> world
     \<Rightarrow> (error option \<times> world) option" where
  "wait_For s msg timeout interval f w = wait_loop s msg (time_Now s w + timeout) interval f w"

text \<open>The type switch of \<open>Solve\<close> on the provider: the pair \<open>(timeout, interval)\<close>.\<close>

definition propagation_timing :: "Challenge \<Rightarrow> Duration \<times> Duration" where
  "propagation_timing c =
     (case provider c of
        None \<Rightarrow> (DefaultPropagationTimeout, DefaultPollingInterval)
      | Some p \<Rightarrow>
         (case Timeout p of
            Some ti \<Rightarrow> ti
          | None \<Rightarrow> (DefaultPropagationTimeout, DefaultPollingInterval)))"

text \<open>The function literal that \<open>Solve\<close> hands to \<^verbatim>\<open>wait.For\<close>.\<close>

definition propagation_check ::
  "Challenge \<Rightarrow> string \<Rightarrow> ChallengeInfo \<Rightarrow> world \<Rightarrow> (bool \<times> error option) \<times> world" where
  "propagation_check c domain info w =
     (let (stop, errP) = preCheck c w domain (EffectiveFQDN info) (Value info);
          w1 = w @ [EvPreCheck domain (EffectiveFQDN info) (Value info)];
          w2 = (if \<not> stop \<or> errP \<noteq> None
                then log_Infof ''[%s] acme: Waiting for DNS record propagation.'' [domain] w1
                else w1)
      in ((stop, errP), w2))"

text \<open>
  The lines of \<open>Solve\<close> from \<^verbatim>\<open>GetChallengeInfo\<close> to the return of \<^verbatim>\<open>wait.For\<close>:
  the value that \<open>Solve\<close> then tests with \<^verbatim>\<open>if err != nil\<close>.
\<close>

definition wait_for_propagation ::
  "sys \<Rightarrow> Challenge \<Rightarrow> acme_Authorization \<Rightarrow> string \<Rightarrow> string \<Rightarrow> world
     \<Rightarrow> (error option \<times> world) option" where
  "wait_for_propagation s c authz domain keyAuth w1 =
     (let (info, w2) = GetChallengeInfo s (id_Value (Identifier authz)) keyAuth w1;
          (timeout, interval) = propagation_timing c;
          w3 = log_Infof ''[%s] acme: Checking DNS record propagation using %+v''
                 (domain # recursiveNameservers s) w2;
          w4 = time_Sleep interval w3
      in wait_For s ''propagation'' timeout interval (propagation_check c domain info) w4)"

definition Solve ::
  "sys \<Rightarrow> Challenge \<Rightarrow> acme_Authorization \<Rightarrow> world \<Rightarrow> (error option \<times> world) option" where
  "Solve s c authz w =
     (let domain = GetTargetedDomain s authz;
          w1 = log_Infof ''[%s] acme: Trying to solve DNS-01'' [domain] w
      in case FindChallenge s DNS01 authz of
           Inl err \<Rightarrow> Some (Some err, w1)
         | Inr chlng \<Rightarrow>
            (case GetKeyAuthorization (core c) (Token chlng) of
               Inl err \<Rightarrow> Some (Some err, w1)
             | Inr keyAuth \<Rightarrow>
                (case wait_for_propagation s c authz domain keyAuth w1 of
                   None \<Rightarrow> None
                 | Some (Some err, w5) \<Rightarrow> Some (Some err, w5)
                 | Some (None, w5) \<Rightarrow>
                    (let chlng' = chlng\<lparr>KeyAuthorization := keyAuth\<rparr>
                     in Some (validate c w5 (core c) domain chlng',
                              w5 @ [EvValidate domain chlng'])))))"

text \<open>
  \<open>CleanUp\<close> calls the method \<^verbatim>\<open>CleanUp\<close> of the provider without the test for
  \<^verbatim>\<open>nil\<close> that \<open>PreSolve\<close> has: on a \<^verbatim>\<open>nil\<close> provider the call panics.
\<close>

definition CleanUp ::
  "sys \<Rightarrow> Challenge \<Rightarrow> acme_Authorization \<Rightarrow> world \<Rightarrow> panic + error option \<times> world" where
  "CleanUp s c authz w =
     (let w1 = log_Infof ''[%s] acme: Cleaning DNS-01 challenge'' [GetTargetedDomain s authz] w
      in case FindChallenge s DNS01 authz of
           Inl err \<Rightarrow> Inr (Some err, w1)
         | Inr chlng \<Rightarrow>
            (case GetKeyAuthorization (core c) (Token chlng) of
               Inl err \<Rightarrow> Inr (Some err, w1)
             | Inr keyAuth \<Rightarrow>
                (case provider c of
                   None \<Rightarrow> Inl NilPointerDereference
                 | Some p \<Rightarrow>
                     Inr (Provider_CleanUp p w1 (id_Value (Identifier authz)) (Token chlng) keyAuth,
                          w1 @ [EvCleanUp (id_Value (Identifier authz)) (Token chlng) keyAuth]))))"

definition Sequential :: "Challenge \<Rightarrow> bool \<times> Duration" where
  "Sequential c =
     (case provider c of
        None \<Rightarrow> (False, 0)
      | Some p \<Rightarrow>
         (case Provider_Sequential p of
            Some d \<Rightarrow> (True, d)
          | None \<Rightarrow> (False, 0)))"

subsection \<open>Notions used in the statements\<close>

text \<open>The number of DNS queries and of calls of the validate function in a history.\<close>

fun isDnsQuery :: "event \<Rightarrow> bool" where
  "isDnsQuery (EvDnsQuery fqdn rtype nameservers recursive) = True"
| "isDnsQuery e = False"

definition dns_queries :: "world \<Rightarrow> nat" where
  "dns_queries w = length (filter isDnsQuery w)"

fun isValidate :: "event \<Rightarrow> bool" where
  "isValidate (EvValidate domain chlng) = True"
| "isValidate e = False"

definition validate_calls :: "world \<Rightarrow> nat" where
  "validate_calls w = length (filter isValidate w)"

text \<open>
  A resolver that answers from a fixed zone: the answer to a query depends on the
  queried name only.
\<close>

definition static_zone :: "(string \<Rightarrow> error + dns_Msg) \<Rightarrow> sys \<Rightarrow> sys" where
  "static_zone zone s = s\<lparr>dnsQuery := \<lambda>w fqdn rtype nameservers recursive. zone fqdn\<rparr>"

text \<open>
  The CNAME of a name in a zone: the target of the CNAME answer of a successful response;
  none when the query fails, when the response is not a success and when it has no CNAME
  answer.
\<close>

definition CNAME_of :: "(string \<Rightarrow> error + dns_Msg) \<Rightarrow> string \<Rightarrow> string option" where
  "CNAME_of zone name =
     (case zone name of
        Inl err \<Rightarrow> None
      | Inr r \<Rightarrow> if Rcode r = RcodeSuccess then first_CNAME (Answer r) else None)"

text \<open>
  \<open>CNAME_chain zone name names\<close>: from \<open>name\<close> the zone leads through \<open>names\<close>, one
  CNAME after the other, and the last name has no CNAME.
\<close>

fun CNAME_chain :: "(string \<Rightarrow> error + dns_Msg) \<Rightarrow> string \<Rightarrow> string list \<Rightarrow> bool" where
  "CNAME_chain zone name [] = (CNAME_of zone name = None)"
| "CNAME_chain zone name (next # names) =
     (CNAME_of zone name = Some next \<and> CNAME_chain zone next names)"

text \<open>
  \<open>CNAME_walk zone k name\<close>: the name reached from \<open>name\<close> after \<open>k\<close> CNAMEs, each
  leading to a name other than the one it was found at; none when there are fewer.
\<close>

fun CNAME_walk :: "(string \<Rightarrow> error + dns_Msg) \<Rightarrow> nat \<Rightarrow> string \<Rightarrow> string option" where
  "CNAME_walk zone 0 name = Some name"
| "CNAME_walk zone (Suc k) name =
     (case CNAME_of zone name of
        None \<Rightarrow> None
      | Some next \<Rightarrow> if next = name then None else CNAME_walk zone k next)"

text \<open>
  \<open>paced d slept es\<close>: in the events \<open>es\<close> every propagation check comes after a sleep
  of \<open>d\<close> that is later than the check before it; \<open>slept\<close> tells whether such a sleep
  has already happened.
\<close>

fun paced :: "Duration \<Rightarrow> bool \<Rightarrow> event list \<Rightarrow> bool" where
  "paced d slept [] = True"
| "paced d slept (EvSleep d' # es) = paced d (slept \<or> d' = d) es"
| "paced d slept (EvPreCheck domain fqdn val # es) = (slept \<and> paced d False es)"
| "paced d slept (e # es) = paced d slept es"

text \<open>\<open>contains sub str\<close>: the string \<open>sub\<close> occurs in \<open>str\<close>.\<close>

fun contains :: "string \<Rightarrow> string \<Rightarrow> bool" where
  "contains sub [] = (sub = [])"
| "contains sub (c # str) = (take (length sub) (c # str) = sub \<or> contains sub str)"

subsection \<open>Example values\<close>

text \<open>
  A zone with a chain of two CNAMEs that ends in a failing query, a cycle of two names,
  and a name whose CNAME is the name itself; every other name does not exist (response
  code 3).
\<close>

definition example_zone :: "string \<Rightarrow> error + dns_Msg" where
  "example_zone name =
     (if name = ''_acme-challenge.example.com.''
        then Inr \<lparr>Rcode = 0, Answer = [CNAME ''a.example.net.'']\<rparr>
      else if name = ''a.example.net.''
        then Inr \<lparr>Rcode = 0, Answer = [OtherRR, CNAME ''b.example.org.'']\<rparr>
      else if name = ''b.example.org.''
        then Inl (Err ''read udp: i/o timeout'')
      else if name = ''_acme-challenge.loop.example.''
        then Inr \<lparr>Rcode = 0, Answer = [CNAME ''back.example.'']\<rparr>
      else if name = ''back.example.''
        then Inr \<lparr>Rcode = 0, Answer = [CNAME ''_acme-challenge.loop.example.'']\<rparr>
      else if name = ''_acme-challenge.self.example.''
        then Inr \<lparr>Rcode = 0, Answer = [CNAME ''_acme-challenge.self.example.'']\<rparr>
      else Inr \<lparr>Rcode = 3, Answer = []\<rparr>)"

text \<open>A clock that advances while the process sleeps, and only then.\<close>

fun example_clock :: "world \<Rightarrow> int" where
  "example_clock [] = 0"
| "example_clock (EvSleep d # es) = max 0 d + example_clock es"
| "example_clock (e # es) = example_clock es"

definition example_sys :: sys where
  "example_sys =
     \<lparr>environ = Map.empty,
      recursiveNameservers = [''192.0.2.53:53''],
      dnsQuery = (\<lambda>w fqdn rtype nameservers recursive. Inl (Err ''read udp: i/o timeout'')),
      time_Now = example_clock,
      GetTargetedDomain = (\<lambda>authz. id_Value (Identifier authz)),
      FindChallenge = (\<lambda>chlgType authz.
         case filter (\<lambda>chlg. Type chlg = chlgType) (Challenges authz) of
           [] \<Rightarrow> Inl (Err ''unable to find challenge'')
         | chlg # chlgs \<Rightarrow> Inr chlg),
      time_limit_exceeded = (\<lambda>msg. Err (msg @ '': time limit exceeded''))\<rparr>"

definition example_authz :: acme_Authorization where
  "example_authz =
     \<lparr>Identifier = \<lparr>id_Type = ''dns'', id_Value = ''example.com''\<rparr>,
      Challenges = [\<lparr>Type = ''http-01'', Token = ''tok-h'', KeyAuthorization = []\<rparr>,
                    \<lparr>Type = ''dns-01'', Token = ''tok-d'', KeyAuthorization = []\<rparr>],
      Wildcard = False\<rparr>"

text \<open>
  A provider whose calls fail, with a timeout of 5 and an interval of 10, and which asks
  for sequential execution with a delay of 7.
\<close>

definition example_provider :: Provider where
  "example_provider =
     \<lparr>Present = (\<lambda>w domain token keyAuth. Some (Err ''provider: zone update refused'')),
      Provider_CleanUp = (\<lambda>w domain token keyAuth. Some (Err ''provider: zone update refused'')),
      Timeout = Some (5, 10),
      Provider_Sequential = Some 7\<rparr>"

fun isPreCheck :: "event \<Rightarrow> bool" where
  "isPreCheck (EvPreCheck domain fqdn val) = True"
| "isPreCheck e = False"

text \<open>A challenge whose propagation check is satisfied from the second call on.\<close>

definition example_challenge :: Challenge where
  "example_challenge =
     \<lparr>core = \<lparr>GetKeyAuthorization = (\<lambda>token. Inr (token @ ''.thumbprint''))\<rparr>,
      validate = (\<lambda>w core domain chlng. None),
      provider = Some example_provider,
      preCheck = (\<lambda>w domain fqdn val. (list_ex isPreCheck w, None)),
      dnsTimeout = 10 * Second\<rparr>"

text \<open>The same challenge with a propagation check that is never satisfied.\<close>

definition example_challenge_stuck :: Challenge where
  "example_challenge_stuck = example_challenge\<lparr>preCheck := (\<lambda>w domain fqdn val. (False, None))\<rparr>"

section \<open>Properties\<close>

declare followCNAMEs.simps [simp del]

subsection \<open>The TXT value\<close>

lemma length_sha256_bytes: "length (sha256_bytes dig) = 32"
  by (induction dig rule: sha256_bytes.induct) (simp add: PutUint32_def)

lemma length_Sum256: "length (Sum256 data) = 32"
  by (simp add: Sum256_def length_sha256_bytes)

lemma length_EncodeToString:
  "length (RawURLEncoding_EncodeToString src) = (length src * 8 + 5) div 6"
  by (induction src rule: RawURLEncoding_EncodeToString.induct) (simp_all add: Let_def)

lemma getChallengeFQDN_no_follow:
  "getChallengeFQDN s domain False w = (''_acme-challenge.'' @ domain @ ''.'', w)"
  by (simp add: getChallengeFQDN_def)

lemma GetChallengeInfo_eq:
  "GetChallengeInfo s domain keyAuth w =
     (\<lparr>FQDN = ''_acme-challenge.'' @ domain @ ''.'',
       EffectiveFQDN =
         fst (getChallengeFQDN s domain
                (\<not> fst (ParseBool (os_Getenv s ''LEGO_DISABLE_CNAME_SUPPORT''))) w),
       Value = RawURLEncoding_EncodeToString (Sum256 (bytes_of_string keyAuth))\<rparr>,
      snd (getChallengeFQDN s domain
             (\<not> fst (ParseBool (os_Getenv s ''LEGO_DISABLE_CNAME_SUPPORT''))) w))"
  by (simp add: GetChallengeInfo_def getChallengeFQDN_no_follow Let_def split_beta
        sha256_Size_def length_Sum256)

text \<open>
  The digest of the three bytes \<open>abc\<close> and its encoding, computed by the definitions
  above: the test vector of the SHA-256 standard, and the example of the spec.
\<close>

lemma Sum256_abc:
  "Sum256 (bytes_of_string ''abc'') =
     [0xba, 0x78, 0x16, 0xbf, 0x8f, 0x01, 0xcf, 0xea, 0x41, 0x41, 0x40, 0xde, 0x5d, 0xae, 0x22, 0x23,
      0xb0, 0x03, 0x61, 0xa3, 0x96, 0x17, 0x7a, 0x9c, 0xb4, 0x10, 0xff, 0x61, 0xf2, 0x00, 0x15, 0xad]"
  by code_simp

lemma EncodeToString_Sum256_abc:
  "RawURLEncoding_EncodeToString (Sum256 (bytes_of_string ''abc'')) =
     ''ungWv48Bz-pBQUDeXa4iI7ADYaOWF3qctBD_YfIAFa0''"
  unfolding Sum256_abc by code_simp

text \<open>
  C1. For every non-empty key authorization, the \<open>Value\<close> that \<open>GetChallengeInfo\<close>
  returns is the unpadded base64url encoding of the SHA-256 digest of the key
  authorization, it has exactly 43 characters, and it is deterministic: it is the same
  for every domain, every environment, every resolver and every history. (The
  statement holds for the empty key authorization as well: the proof does not use the
  hypothesis.)
\<close>

theorem GetChallengeInfo_Value_digest:
  "keyAuth \<noteq> [] \<Longrightarrow>
   Value (fst (GetChallengeInfo s domain keyAuth w)) =
     RawURLEncoding_EncodeToString (Sum256 (bytes_of_string keyAuth)) \<and>
   length (Value (fst (GetChallengeInfo s domain keyAuth w))) = 43 \<and>
   Value (fst (GetChallengeInfo s' domain' keyAuth w')) =
     Value (fst (GetChallengeInfo s domain keyAuth w))"
  by (simp add: GetChallengeInfo_eq length_EncodeToString length_Sum256)

theorem GetChallengeInfo_Value_digest_witness:
  "''abc'' \<noteq> [] \<and>
   Value (fst (GetChallengeInfo example_sys ''example.com'' ''abc'' [])) =
     ''ungWv48Bz-pBQUDeXa4iI7ADYaOWF3qctBD_YfIAFa0'' \<and>
   length (Value (fst (GetChallengeInfo example_sys ''example.com'' ''abc'' []))) = 43 \<and>
   Value (fst (GetChallengeInfo (static_zone example_zone example_sys) ''example.org'' ''abc''
                 [EvSleep 1])) =
     Value (fst (GetChallengeInfo example_sys ''example.com'' ''abc'' []))"
proof -
  have ne: "''abc'' \<noteq> []" by simp
  from GetChallengeInfo_Value_digest [OF ne, of example_sys "''example.com''" "[]"
      "static_zone example_zone example_sys" "''example.org''" "[EvSleep 1]"]
  show ?thesis by (simp add: EncodeToString_Sum256_abc)
qed

subsection \<open>The challenge name\<close>

text \<open>
  C6. For every domain and key authorization, the \<open>FQDN\<close> that \<open>GetChallengeInfo\<close>
  returns is exactly \<^verbatim>\<open>"_acme-challenge." + domain + "."\<close>, whatever the resolver answers
  and whatever the environment holds.
\<close>

theorem GetChallengeInfo_FQDN_exact:
  "FQDN (fst (GetChallengeInfo s domain keyAuth w)) = ''_acme-challenge.'' @ domain @ ''.''"
  by (simp add: GetChallengeInfo_eq)

theorem GetChallengeInfo_FQDN_exact_witness:
  "FQDN (fst (GetChallengeInfo (static_zone example_zone example_sys) ''example.com'' ''abc'' [])) =
     ''_acme-challenge.example.com.''"
  using GetChallengeInfo_FQDN_exact [of "static_zone example_zone example_sys" "''example.com''"
      "''abc''" "[]"]
  by simp

text \<open>
  C10. \<open>GetRecord\<close> returns the pair of the \<open>EffectiveFQDN\<close> and the \<open>Value\<close> of
  \<open>GetChallengeInfo\<close> for the same domain and key authorization, and leaves the history
  that this call of \<open>GetChallengeInfo\<close> leaves.
\<close>

theorem GetRecord_projection:
  "GetRecord s domain keyAuth w =
     ((EffectiveFQDN (fst (GetChallengeInfo s domain keyAuth w)),
       Value (fst (GetChallengeInfo s domain keyAuth w))),
      snd (GetChallengeInfo s domain keyAuth w))"
  by (simp add: GetRecord_def split_beta)

subsection \<open>Following CNAMEs\<close>

lemma dns_queries_append [simp]: "dns_queries (w @ es) = dns_queries w + dns_queries es"
  by (simp add: dns_queries_def)

lemma dns_queries_log [simp]: "dns_queries (log_Infof format args w) = dns_queries w"
  by (simp add: log_Infof_def dns_queries_def)

lemma dns_queries_query [simp]: "dns_queries [EvDnsQuery fqdn rtype nameservers recursive] = 1"
  by (simp add: dns_queries_def)

lemma followCNAMEs_queries_le:
  "dns_queries (snd (followCNAMEs s limit fqdn w)) \<le> dns_queries w + (50 - limit)"
proof (induction s limit fqdn w rule: followCNAMEs.induct)
  case (1 s limit fqdn w)
  show ?case
  proof (cases "limit < 50")
    case False
    then show ?thesis by (simp add: followCNAMEs.simps [of s limit fqdn w])
  next
    case True
    show ?thesis
    proof (cases "dnsQuery s w fqdn TypeCNAME (recursiveNameservers s) True")
      case (Inl err)
      with True show ?thesis by (simp add: followCNAMEs.simps [of s limit fqdn w])
    next
      case (Inr r)
      show ?thesis
      proof (cases "Rcode r \<noteq> RcodeSuccess \<or> updateDomainWithCName r fqdn = fqdn")
        case stop: True
        with True Inr show ?thesis
          by (auto simp add: followCNAMEs.simps [of s limit fqdn w] Let_def)
      next
        case go: False
        have "dns_queries (snd (followCNAMEs s (limit + 1) (updateDomainWithCName r fqdn)
                 (log_Infof ''Found CNAME entry for %q: %q'' [fqdn, updateDomainWithCName r fqdn]
                   (w @ [EvDnsQuery fqdn TypeCNAME (recursiveNameservers s) True]))))
              \<le> dns_queries w + 1 + (50 - (limit + 1))"
          using "1.IH" [OF True refl Inr _ refl] go by simp
        with True Inr go show ?thesis
          by (simp add: followCNAMEs.simps [of s limit fqdn w] Let_def)
      qed
    qed
  qed
qed

lemma followCNAMEs_static_stop:
  "limit < 50 \<Longrightarrow> CNAME_of zone fqdn = None \<or> CNAME_of zone fqdn = Some fqdn \<Longrightarrow>
   followCNAMEs (static_zone zone s) limit fqdn w =
     (fqdn, w @ [EvDnsQuery fqdn TypeCNAME (recursiveNameservers s) True])"
  by (auto simp add: followCNAMEs.simps [of _ limit fqdn w] static_zone_def CNAME_of_def
        updateDomainWithCName_def Let_def split: sum.splits if_splits option.splits)

lemma followCNAMEs_static_step:
  "limit < 50 \<Longrightarrow> CNAME_of zone fqdn = Some cname \<Longrightarrow> cname \<noteq> fqdn \<Longrightarrow>
   followCNAMEs (static_zone zone s) limit fqdn w =
     followCNAMEs (static_zone zone s) (limit + 1) cname
       (log_Infof ''Found CNAME entry for %q: %q'' [fqdn, cname]
          (w @ [EvDnsQuery fqdn TypeCNAME (recursiveNameservers s) True]))"
  by (auto simp add: followCNAMEs.simps [of _ limit fqdn w] static_zone_def CNAME_of_def
        updateDomainWithCName_def Let_def split: sum.splits if_splits option.splits)

lemma followCNAMEs_limit: "followCNAMEs s 50 fqdn w = (fqdn, w)"
  by (simp add: followCNAMEs.simps [of s 50 fqdn w])

text \<open>A name whose CNAME is the name itself is on no chain: a chain ends.\<close>

lemma CNAME_chain_self: "CNAME_of zone name = Some name \<Longrightarrow> \<not> CNAME_chain zone name names"
  by (induction names) auto

lemma followCNAMEs_chain:
  "CNAME_chain zone fqdn names \<Longrightarrow> limit + length names < 50 \<Longrightarrow>
   fst (followCNAMEs (static_zone zone s) limit fqdn w) = last (fqdn # names)"
proof (induction names arbitrary: limit fqdn w)
  case Nil
  then show ?case by (simp add: followCNAMEs_static_stop)
next
  case (Cons n names)
  then have link: "CNAME_of zone fqdn = Some n" and rest: "CNAME_chain zone n names"
    and lim: "limit < 50" "(limit + 1) + length names < 50"
    by simp_all
  have "n \<noteq> fqdn" using link rest CNAME_chain_self by blast
  then show ?case
    using Cons.IH [OF rest lim(2)] link lim(1) by (simp add: followCNAMEs_static_step)
qed

lemma followCNAMEs_walk:
  "CNAME_walk zone k fqdn = Some t \<Longrightarrow> limit + k = 50 \<Longrightarrow>
   fst (followCNAMEs (static_zone zone s) limit fqdn w) = t \<and>
   dns_queries (snd (followCNAMEs (static_zone zone s) limit fqdn w)) = dns_queries w + k"
proof (induction k arbitrary: limit fqdn w)
  case 0
  then show ?case by (simp add: followCNAMEs_limit)
next
  case (Suc k)
  from Suc.prems(1) obtain n where link: "CNAME_of zone fqdn = Some n" and ne: "n \<noteq> fqdn"
    and rest: "CNAME_walk zone k n = Some t"
    by (auto split: option.splits if_splits)
  from Suc.prems(2) have lim: "limit < 50" "(limit + 1) + k = 50" by simp_all
  show ?case
    using Suc.IH [OF rest lim(2)] link ne lim(1) by (simp add: followCNAMEs_static_step)
qed

lemma CNAME_of_example_zone:
  "CNAME_of example_zone ''_acme-challenge.example.com.'' = Some ''a.example.net.''"
  "CNAME_of example_zone ''a.example.net.'' = Some ''b.example.org.''"
  "CNAME_of example_zone ''b.example.org.'' = None"
  "CNAME_of example_zone ''_acme-challenge.loop.example.'' = Some ''back.example.''"
  "CNAME_of example_zone ''back.example.'' = Some ''_acme-challenge.loop.example.''"
  "CNAME_of example_zone ''_acme-challenge.self.example.'' = Some ''_acme-challenge.self.example.''"
  by (simp_all add: CNAME_of_def example_zone_def RcodeSuccess_def)

text \<open>
  C2. Let the resolver answer from a zone in which the challenge name starts a chain
  of \<open>k < 50\<close> CNAMEs, the last name of which has no CNAME: the query for it fails, or
  the response is not a success, or it has no CNAME answer. Then the resolution returns
  the last name of the chain. A query failure, in particular, ends the walk at the name
  that was queried; the result of \<open>getChallengeFQDN\<close> is a name and never an error.
\<close>

theorem getChallengeFQDN_chain:
  "CNAME_chain zone (''_acme-challenge.'' @ domain @ ''.'') names \<Longrightarrow> length names < 50 \<Longrightarrow>
   fst (getChallengeFQDN (static_zone zone s) domain True w) =
     last ((''_acme-challenge.'' @ domain @ ''.'') # names)"
  using followCNAMEs_chain [of zone "''_acme-challenge.'' @ domain @ ''.''" names 0 s w]
  by (simp add: getChallengeFQDN_def)

theorem getChallengeFQDN_chain_witness:
  "CNAME_chain example_zone (''_acme-challenge.'' @ ''example.com'' @ ''.'')
     [''a.example.net.'', ''b.example.org.''] \<and>
   length [''a.example.net.'', ''b.example.org.''] < 50 \<and>
   example_zone ''b.example.org.'' = Inl (Err ''read udp: i/o timeout'') \<and>
   fst (getChallengeFQDN (static_zone example_zone example_sys) ''example.com'' True []) =
     ''b.example.org.''"
proof -
  have chain: "CNAME_chain example_zone (''_acme-challenge.'' @ ''example.com'' @ ''.'')
     [''a.example.net.'', ''b.example.org.'']"
    by (simp add: CNAME_of_example_zone)
  have len: "length [''a.example.net.'', ''b.example.org.''] < 50" by simp
  have fail: "example_zone ''b.example.org.'' = Inl (Err ''read udp: i/o timeout'')"
    by (simp add: example_zone_def)
  from getChallengeFQDN_chain [OF chain len, of example_sys "[]"] chain len fail
  show ?thesis by simp
qed

lemma CNAME_walk_example_loop:
  "CNAME_walk example_zone 50 ''_acme-challenge.loop.example.'' = Some ''_acme-challenge.loop.example.''"
  by (simp add: eval_nat_numeral CNAME_of_example_zone)

text \<open>
  C3. The loop of \<open>getChallengeFQDN\<close> ends for every resolver (\<open>followCNAMEs\<close> is a
  total function: its counter \<open>limit\<close> grows up to 50), and it sends at most 50
  queries, whatever the resolver answers. When the zone leads from the challenge name
  through 50 CNAMEs, each to a name other than the one it was found at (a chain of 50
  or more names, or a cycle of two or more names), the loop stops after exactly 50
  queries, at the name reached by the 50th CNAME. When the CNAME of the challenge name
  is the challenge name itself, the loop stops after the first query.
\<close>

theorem getChallengeFQDN_hops:
  "dns_queries (snd (getChallengeFQDN s domain followCNAME w)) \<le> dns_queries w + 50 \<and>
   (CNAME_walk zone 50 (''_acme-challenge.'' @ domain @ ''.'') = Some name \<longrightarrow>
      fst (getChallengeFQDN (static_zone zone s) domain True w) = name \<and>
      dns_queries (snd (getChallengeFQDN (static_zone zone s) domain True w)) = dns_queries w + 50) \<and>
   (CNAME_of zone (''_acme-challenge.'' @ domain @ ''.'') = Some (''_acme-challenge.'' @ domain @ ''.'') \<longrightarrow>
      fst (getChallengeFQDN (static_zone zone s) domain True w) = ''_acme-challenge.'' @ domain @ ''.'' \<and>
      dns_queries (snd (getChallengeFQDN (static_zone zone s) domain True w)) = dns_queries w + 1)"
proof (intro conjI impI)
  show "dns_queries (snd (getChallengeFQDN s domain followCNAME w)) \<le> dns_queries w + 50"
    using followCNAMEs_queries_le [of s 0 "''_acme-challenge.'' @ domain @ ''.''" w]
    by (simp add: getChallengeFQDN_def Let_def)
next
  assume "CNAME_walk zone 50 (''_acme-challenge.'' @ domain @ ''.'') = Some name"
  from followCNAMEs_walk [OF this, of 0 s w]
  show "fst (getChallengeFQDN (static_zone zone s) domain True w) = name"
    and "dns_queries (snd (getChallengeFQDN (static_zone zone s) domain True w)) = dns_queries w + 50"
    by (simp_all add: getChallengeFQDN_def)
next
  assume self: "CNAME_of zone (''_acme-challenge.'' @ domain @ ''.'') =
                  Some (''_acme-challenge.'' @ domain @ ''.'')"
  have stop: "followCNAMEs (static_zone zone s) 0 (''_acme-challenge.'' @ domain @ ''.'') w =
          (''_acme-challenge.'' @ domain @ ''.'',
           w @ [EvDnsQuery (''_acme-challenge.'' @ domain @ ''.'') TypeCNAME (recursiveNameservers s) True])"
    using self by (intro followCNAMEs_static_stop) simp_all
  show "fst (getChallengeFQDN (static_zone zone s) domain True w) = ''_acme-challenge.'' @ domain @ ''.''"
    and "dns_queries (snd (getChallengeFQDN (static_zone zone s) domain True w)) = dns_queries w + 1"
    using stop by (simp_all add: getChallengeFQDN_def)
qed

theorem getChallengeFQDN_hops_witness:
  "dns_queries (snd (getChallengeFQDN (static_zone example_zone example_sys) ''loop.example'' True []))
     \<le> dns_queries [] + 50 \<and>
   CNAME_walk example_zone 50 (''_acme-challenge.'' @ ''loop.example'' @ ''.'') =
     Some ''_acme-challenge.loop.example.'' \<and>
   fst (getChallengeFQDN (static_zone example_zone example_sys) ''loop.example'' True []) =
     ''_acme-challenge.loop.example.'' \<and>
   dns_queries (snd (getChallengeFQDN (static_zone example_zone example_sys) ''loop.example'' True []))
     = 50 \<and>
   CNAME_of example_zone (''_acme-challenge.'' @ ''self.example'' @ ''.'') =
     Some (''_acme-challenge.'' @ ''self.example'' @ ''.'') \<and>
   fst (getChallengeFQDN (static_zone example_zone example_sys) ''self.example'' True []) =
     ''_acme-challenge.self.example.'' \<and>
   dns_queries (snd (getChallengeFQDN (static_zone example_zone example_sys) ''self.example'' True []))
     = 1"
proof -
  have walk: "CNAME_walk example_zone 50 (''_acme-challenge.'' @ ''loop.example'' @ ''.'') =
     Some ''_acme-challenge.loop.example.''"
    using CNAME_walk_example_loop by simp
  have self: "CNAME_of example_zone (''_acme-challenge.'' @ ''self.example'' @ ''.'') =
     Some (''_acme-challenge.'' @ ''self.example'' @ ''.'')"
    by (simp add: CNAME_of_example_zone)
  have empty: "dns_queries [] = 0" by (simp add: dns_queries_def)
  from getChallengeFQDN_hops [where s = "static_zone example_zone example_sys"
      and domain = "''loop.example''" and followCNAME = True and w = "[]"]
    getChallengeFQDN_hops [where s = example_sys and domain = "''loop.example''" and w = "[]"
      and zone = example_zone and name = "''_acme-challenge.loop.example.''"]
    getChallengeFQDN_hops [where s = example_sys and domain = "''self.example''" and w = "[]"
      and zone = example_zone]
    walk self empty
  show ?thesis by simp
qed

text \<open>
  C5. When the environment variable \<^verbatim>\<open>LEGO_DISABLE_CNAME_SUPPORT\<close> is set, that is, when
  it holds a value that \<^verbatim>\<open>strconv.ParseBool\<close> reads as true (\<^verbatim>\<open>1\<close>, \<^verbatim>\<open>t\<close>, \<^verbatim>\<open>T\<close>,
  \<^verbatim>\<open>true\<close>, \<^verbatim>\<open>TRUE\<close> or \<^verbatim>\<open>True\<close>), \<open>GetChallengeInfo\<close> returns an \<open>EffectiveFQDN\<close> equal
  to the \<open>FQDN\<close>, whatever the resolver would answer, and leaves the history as it
  found it: it sends no query.
\<close>

theorem GetChallengeInfo_CNAME_disabled:
  "fst (ParseBool (os_Getenv s ''LEGO_DISABLE_CNAME_SUPPORT'')) \<Longrightarrow>
   EffectiveFQDN (fst (GetChallengeInfo s domain keyAuth w)) =
     FQDN (fst (GetChallengeInfo s domain keyAuth w)) \<and>
   snd (GetChallengeInfo s domain keyAuth w) = w"
  by (simp add: GetChallengeInfo_eq getChallengeFQDN_no_follow)

theorem GetChallengeInfo_CNAME_disabled_witness:
  "fst (ParseBool (os_Getenv
      (static_zone example_zone (example_sys\<lparr>environ := [''LEGO_DISABLE_CNAME_SUPPORT'' \<mapsto> ''true'']\<rparr>))
      ''LEGO_DISABLE_CNAME_SUPPORT'')) \<and>
   CNAME_of example_zone ''_acme-challenge.example.com.'' = Some ''a.example.net.'' \<and>
   EffectiveFQDN (fst (GetChallengeInfo
      (static_zone example_zone (example_sys\<lparr>environ := [''LEGO_DISABLE_CNAME_SUPPORT'' \<mapsto> ''true'']\<rparr>))
      ''example.com'' ''abc'' [])) = ''_acme-challenge.example.com.'' \<and>
   snd (GetChallengeInfo
      (static_zone example_zone (example_sys\<lparr>environ := [''LEGO_DISABLE_CNAME_SUPPORT'' \<mapsto> ''true'']\<rparr>))
      ''example.com'' ''abc'' []) = []"
proof -
  let ?s = "static_zone example_zone (example_sys\<lparr>environ := [''LEGO_DISABLE_CNAME_SUPPORT'' \<mapsto> ''true'']\<rparr>)"
  have set: "fst (ParseBool (os_Getenv ?s ''LEGO_DISABLE_CNAME_SUPPORT''))"
    by (simp add: ParseBool_def os_Getenv_def static_zone_def)
  have fqdn: "FQDN (fst (GetChallengeInfo ?s ''example.com'' ''abc'' [])) = ''_acme-challenge.example.com.''"
    by (simp add: GetChallengeInfo_eq)
  from GetChallengeInfo_CNAME_disabled [OF set, of "''example.com''" "''abc''" "[]"] set fqdn
  show ?thesis by (simp add: CNAME_of_example_zone)
qed

text \<open>
  With the same zone and the variable holding \<^verbatim>\<open>false\<close>, CNAMEs are followed.
\<close>

lemma GetChallengeInfo_CNAME_enabled_example:
  "EffectiveFQDN (fst (GetChallengeInfo
      (static_zone example_zone (example_sys\<lparr>environ := [''LEGO_DISABLE_CNAME_SUPPORT'' \<mapsto> ''false'']\<rparr>))
      ''example.com'' ''abc'' [])) = ''b.example.org.''"
proof -
  let ?e = "example_sys\<lparr>environ := [''LEGO_DISABLE_CNAME_SUPPORT'' \<mapsto> ''false'']\<rparr>"
  have "CNAME_chain example_zone ''_acme-challenge.example.com.'' [''a.example.net.'', ''b.example.org.'']"
    by (simp add: CNAME_of_example_zone)
  from followCNAMEs_chain [OF this, of 0 ?e "[]"]
  show ?thesis
    by (simp add: GetChallengeInfo_eq getChallengeFQDN_def ParseBool_def os_Getenv_def static_zone_def)
qed

subsection \<open>The events of the propagation wait\<close>

lemma followCNAMEs_events:
  "\<exists>es. snd (followCNAMEs s limit fqdn w) = w @ es \<and>
        (\<forall>e\<in>set es. (\<exists>format args. e = EvLog format args) \<or>
                     (\<exists>q rtype ns rec. e = EvDnsQuery q rtype ns rec))"
proof (induction s limit fqdn w rule: followCNAMEs.induct)
  case (1 s limit fqdn w)
  show ?case
  proof (cases "limit < 50")
    case False
    then show ?thesis by (simp add: followCNAMEs.simps [of s limit fqdn w])
  next
    case True
    show ?thesis
    proof (cases "dnsQuery s w fqdn TypeCNAME (recursiveNameservers s) True")
      case (Inl err)
      with True show ?thesis by (auto simp add: followCNAMEs.simps [of s limit fqdn w])
    next
      case (Inr r)
      show ?thesis
      proof (cases "Rcode r \<noteq> RcodeSuccess \<or> updateDomainWithCName r fqdn = fqdn")
        case stop: True
        with True Inr show ?thesis
          by (auto simp add: followCNAMEs.simps [of s limit fqdn w] Let_def)
      next
        case go: False
        from "1.IH" [OF True refl Inr _ refl] go
        obtain es where es: "snd (followCNAMEs s (limit + 1) (updateDomainWithCName r fqdn)
                 (log_Infof ''Found CNAME entry for %q: %q'' [fqdn, updateDomainWithCName r fqdn]
                   (w @ [EvDnsQuery fqdn TypeCNAME (recursiveNameservers s) True])))
               = log_Infof ''Found CNAME entry for %q: %q'' [fqdn, updateDomainWithCName r fqdn]
                   (w @ [EvDnsQuery fqdn TypeCNAME (recursiveNameservers s) True]) @ es"
          and quiet: "\<forall>e\<in>set es. (\<exists>format args. e = EvLog format args) \<or>
                     (\<exists>q rtype ns rec. e = EvDnsQuery q rtype ns rec)"
          by auto
        have "snd (followCNAMEs s limit fqdn w) =
                w @ (EvDnsQuery fqdn TypeCNAME (recursiveNameservers s) True
                     # EvLog ''Found CNAME entry for %q: %q'' [fqdn, updateDomainWithCName r fqdn] # es)"
          using True Inr go es
          by (simp add: followCNAMEs.simps [of s limit fqdn w] Let_def log_Infof_def)
        moreover have "\<forall>e\<in>set (EvDnsQuery fqdn TypeCNAME (recursiveNameservers s) True
                     # EvLog ''Found CNAME entry for %q: %q'' [fqdn, updateDomainWithCName r fqdn] # es).
                 (\<exists>format args. e = EvLog format args) \<or>
                     (\<exists>q rtype ns rec. e = EvDnsQuery q rtype ns rec)"
          using quiet by auto
        ultimately show ?thesis by blast
      qed
    qed
  qed
qed

lemma GetChallengeInfo_events:
  "\<exists>es. snd (GetChallengeInfo s domain keyAuth w) = w @ es \<and>
        (\<forall>e\<in>set es. (\<exists>format args. e = EvLog format args) \<or>
                     (\<exists>q rtype ns rec. e = EvDnsQuery q rtype ns rec))"
proof (cases "fst (ParseBool (os_Getenv s ''LEGO_DISABLE_CNAME_SUPPORT''))")
  case True
  then show ?thesis
    by (simp add: GetChallengeInfo_eq getChallengeFQDN_no_follow)
next
  case False
  then show ?thesis
    using followCNAMEs_events [of s 0 "''_acme-challenge.'' @ domain @ ''.''" w]
    by (simp add: GetChallengeInfo_eq getChallengeFQDN_def Let_def)
qed

lemma paced_quiet_prefix:
  "\<forall>e\<in>set xs. (\<exists>format args. e = EvLog format args) \<or>
                     (\<exists>q rtype ns rec. e = EvDnsQuery q rtype ns rec) \<Longrightarrow>
   paced d b (xs @ ys) = paced d b ys"
  by (induction xs) auto

lemma paced_validate_suffix:
  "paced d b xs \<Longrightarrow> paced d b (xs @ [EvValidate domain chlng])"
  by (induction d b xs rule: paced.induct) auto

lemma validate_calls_quiet:
  "\<forall>e\<in>set xs. (\<exists>format args. e = EvLog format args) \<or>
                     (\<exists>q rtype ns rec. e = EvDnsQuery q rtype ns rec) \<Longrightarrow>
   validate_calls (w @ xs) = validate_calls w"
  by (induction xs) (auto simp add: validate_calls_def)

lemma validate_calls_append: "validate_calls (w @ es) = validate_calls w + validate_calls es"
  by (simp add: validate_calls_def)

lemma propagation_check_events:
  "snd (propagation_check c domain info w) =
     w @ [EvPreCheck domain (EffectiveFQDN info) (Value info)]
     \<or> snd (propagation_check c domain info w) =
     w @ [EvPreCheck domain (EffectiveFQDN info) (Value info),
          EvLog ''[%s] acme: Waiting for DNS record propagation.'' [domain]]"
  by (simp add: propagation_check_def Let_def split_beta log_Infof_def)

text \<open>
  Whenever the loop returns, the events it has added are rounds of a propagation check,
  perhaps a log line, and a sleep of the interval between one check and the next.
\<close>

lemma wait_loop_events:
  assumes run: "wait_loop s0 msg0 deadline0 interval0 f0 w0 = Some y0"
  shows "f0 = propagation_check c domain info \<longrightarrow>
   (\<exists>es. snd y0 = w0 @ es \<and> paced interval0 True es \<and> validate_calls es = 0)"
proof (rule wait_loop.raw_induct
    [where P = "\<lambda>s msg deadline interval f w y. f = propagation_check c domain info \<longrightarrow>
       (\<exists>es. snd y = w @ es \<and> paced interval True es \<and> validate_calls es = 0)", OF _ run])
  fix wait_loop' :: "sys \<Rightarrow> string \<Rightarrow> int \<Rightarrow> Duration
      \<Rightarrow> (world \<Rightarrow> (bool \<times> error option) \<times> world) \<Rightarrow> world \<Rightarrow> (error option \<times> world) option"
    and s :: sys and msg :: string and deadline :: int and interval :: Duration
    and f :: "world \<Rightarrow> (bool \<times> error option) \<times> world" and w :: world
    and y :: "error option \<times> world"
  assume IH: "\<And>s' msg' deadline' interval' f' w' y'.
      wait_loop' s' msg' deadline' interval' f' w' = Some y' \<Longrightarrow>
      f' = propagation_check c domain info \<longrightarrow>
       (\<exists>es. snd y' = w' @ es \<and> paced interval' True es \<and> validate_calls es = 0)"
  assume body: "(let r = f w; stop = fst (fst r); err = snd (fst r); w1 = snd r
      in if stop then Some (None, w1)
         else if time_Now s w1 < deadline
              then wait_loop' s msg deadline interval f (time_Sleep interval w1)
              else case err of
                   None \<Rightarrow> Some (Some (time_limit_exceeded s msg), w1)
                   | Some e \<Rightarrow> Some (Some e, w1)) = Some y"
  show "f = propagation_check c domain info \<longrightarrow>
       (\<exists>es. snd y = w @ es \<and> paced interval True es \<and> validate_calls es = 0)"
  proof
    assume f: "f = propagation_check c domain info"
    let ?pre = "EvPreCheck domain (EffectiveFQDN info) (Value info)"
    let ?log = "EvLog ''[%s] acme: Waiting for DNS record propagation.'' [domain]"
    from propagation_check_events [of c domain info w] f
    obtain xs where xs: "snd (f w) = w @ ?pre # xs" and xs_log: "xs = [] \<or> xs = [?log]"
      by auto
    show "\<exists>es. snd y = w @ es \<and> paced interval True es \<and> validate_calls es = 0"
    proof (cases "fst (fst (f w))")
      case True
      with body have "snd y = w @ ?pre # xs"
        by (auto simp add: Let_def xs [symmetric])
      moreover have "paced interval True (?pre # xs)" "validate_calls (?pre # xs) = 0"
        using xs_log by (auto simp add: validate_calls_def)
      ultimately show ?thesis by blast
    next
      case False
      show ?thesis
      proof (cases "time_Now s (snd (f w)) < deadline")
        case now: True
        with False body
        have "wait_loop' s msg deadline interval f (time_Sleep interval (snd (f w))) = Some y"
          by (simp add: Let_def)
        from IH [OF this] f
        obtain es where es: "snd y = time_Sleep interval (snd (f w)) @ es"
          and p: "paced interval True es" and v: "validate_calls es = 0"
          by blast
        have "snd y = w @ (?pre # xs @ EvSleep interval # es)"
          using es xs by (simp add: time_Sleep_def)
        moreover have "paced interval True (?pre # xs @ EvSleep interval # es)"
          using xs_log p by auto
        moreover have "validate_calls (?pre # xs @ EvSleep interval # es) = 0"
          using xs_log v by (auto simp add: validate_calls_def)
        ultimately show ?thesis by blast
      next
        case late: False
        with False body have "snd y = w @ ?pre # xs"
          by (auto simp add: Let_def xs [symmetric] split: option.splits)
        moreover have "paced interval True (?pre # xs)" "validate_calls (?pre # xs) = 0"
          using xs_log by (auto simp add: validate_calls_def)
        ultimately show ?thesis by blast
      qed
    qed
  qed
qed

lemma wait_for_propagation_events:
  assumes "wait_for_propagation s c authz domain keyAuth w = Some (r, w')"
  shows "\<exists>es. w' = w @ es \<and> paced (snd (propagation_timing c)) False es \<and> validate_calls es = 0"
proof -
  let ?G = "GetChallengeInfo s (id_Value (Identifier authz)) keyAuth w"
  let ?d = "snd (propagation_timing c)"
  let ?log = "EvLog ''[%s] acme: Checking DNS record propagation using %+v''
                 (domain # recursiveNameservers s)"
  obtain xs where xs: "snd ?G = w @ xs"
    and quiet: "\<forall>e\<in>set xs. (\<exists>format args. e = EvLog format args) \<or>
                     (\<exists>q rtype ns rec. e = EvDnsQuery q rtype ns rec)"
    using GetChallengeInfo_events by blast
  from assms have "wait_loop s ''propagation''
        (time_Now s (w @ xs @ [?log, EvSleep ?d]) + fst (propagation_timing c)) ?d
        (propagation_check c domain (fst ?G)) (w @ xs @ [?log, EvSleep ?d]) = Some (r, w')"
    by (simp add: wait_for_propagation_def wait_For_def Let_def split_beta xs log_Infof_def
          time_Sleep_def)
  from wait_loop_events [OF this, of c domain "fst ?G"]
  obtain es where es: "w' = (w @ xs @ [?log, EvSleep ?d]) @ es"
    and p: "paced ?d True es" and v: "validate_calls es = 0"
    by auto
  have "w' = w @ (xs @ ?log # EvSleep ?d # es)" using es by simp
  moreover have "paced ?d False (xs @ ?log # EvSleep ?d # es)"
    using p by (simp add: paced_quiet_prefix [OF quiet])
  moreover have "validate_calls (xs @ ?log # EvSleep ?d # es) = 0"
    using v validate_calls_quiet [OF quiet, of "[]"]
    by (simp add: validate_calls_def)
  ultimately show ?thesis by blast
qed

subsection \<open>Solve\<close>

lemma example_lookup:
  "FindChallenge example_sys DNS01 example_authz =
     Inr \<lparr>Type = ''dns-01'', Token = ''tok-d'', KeyAuthorization = []\<rparr>"
  "GetTargetedDomain example_sys example_authz = ''example.com''"
  "GetKeyAuthorization (core example_challenge) ''tok-d'' = Inr ''tok-d.thumbprint''"
  "GetKeyAuthorization (core example_challenge_stuck) ''tok-d'' = Inr ''tok-d.thumbprint''"
  by (simp_all add: example_sys_def example_authz_def example_challenge_def
        example_challenge_stuck_def DNS01_def)

lemma example_GetChallengeInfo:
  "GetChallengeInfo example_sys ''example.com'' keyAuth w =
     (\<lparr>FQDN = ''_acme-challenge.example.com.'',
       EffectiveFQDN = ''_acme-challenge.example.com.'',
       Value = RawURLEncoding_EncodeToString (Sum256 (bytes_of_string keyAuth))\<rparr>,
      w @ [EvDnsQuery ''_acme-challenge.example.com.'' TypeCNAME [''192.0.2.53:53''] True])"
  by (simp add: GetChallengeInfo_eq getChallengeFQDN_def followCNAMEs.simps [of _ 0]
        example_sys_def ParseBool_def os_Getenv_def Let_def)

text \<open>
  The wait of the stuck example: the check fails at time 10 and at time 20, and the
  time is up at 15.
\<close>

lemma example_wait_stuck:
  "wait_for_propagation example_sys example_challenge_stuck example_authz ''example.com''
     ''tok-d.thumbprint'' [EvLog ''[%s] acme: Trying to solve DNS-01'' [''example.com'']] =
   Some (Some (Err ''propagation: time limit exceeded''),
     [EvLog ''[%s] acme: Trying to solve DNS-01'' [''example.com''],
      EvDnsQuery ''_acme-challenge.example.com.'' TypeCNAME [''192.0.2.53:53''] True,
      EvLog ''[%s] acme: Checking DNS record propagation using %+v''
        [''example.com'', ''192.0.2.53:53''],
      EvSleep 10,
      EvPreCheck ''example.com'' ''_acme-challenge.example.com.''
        (RawURLEncoding_EncodeToString (Sum256 (bytes_of_string ''tok-d.thumbprint''))),
      EvLog ''[%s] acme: Waiting for DNS record propagation.'' [''example.com''],
      EvSleep 10,
      EvPreCheck ''example.com'' ''_acme-challenge.example.com.''
        (RawURLEncoding_EncodeToString (Sum256 (bytes_of_string ''tok-d.thumbprint''))),
      EvLog ''[%s] acme: Waiting for DNS record propagation.'' [''example.com'']])"
  apply (simp add: wait_for_propagation_def example_GetChallengeInfo example_authz_def
      propagation_timing_def example_challenge_stuck_def example_challenge_def
      example_provider_def wait_For_def log_Infof_def time_Sleep_def)
  apply (subst wait_loop.simps)
  apply (simp add: propagation_check_def Let_def log_Infof_def time_Sleep_def example_sys_def)
  apply (subst wait_loop.simps)
  apply (simp add: propagation_check_def Let_def log_Infof_def time_Sleep_def example_sys_def)
  done

text \<open>
  C4. When \<open>Solve\<close> has found the challenge and its key authorization and the wait for
  the propagation returns an error (the time limit, or the error of a check), \<open>Solve\<close>
  returns that error and stops there: the history is the one that the wait has left, and
  it holds no more calls of the validate function than before \<open>Solve\<close>. The key
  authorization is attached to the copy of the challenge that is handed to the validate
  function, on the line before that call, which this path does not reach.
\<close>

theorem Solve_wait_error_no_validate:
  assumes "FindChallenge s DNS01 authz = Inr chlng"
    and "GetKeyAuthorization (core c) (Token chlng) = Inr keyAuth"
    and "wait_for_propagation s c authz (GetTargetedDomain s authz) keyAuth
           (log_Infof ''[%s] acme: Trying to solve DNS-01'' [GetTargetedDomain s authz] w) =
         Some (Some err, w')"
  shows "Solve s c authz w = Some (Some err, w') \<and> validate_calls w' = validate_calls w"
proof
  show "Solve s c authz w = Some (Some err, w')"
    using assms by (simp add: Solve_def Let_def)
  from wait_for_propagation_events [OF assms(3)]
  obtain es where "w' = log_Infof ''[%s] acme: Trying to solve DNS-01'' [GetTargetedDomain s authz] w @ es"
    and "validate_calls es = 0"
    by blast
  then show "validate_calls w' = validate_calls w"
    by (simp add: validate_calls_append) (simp add: validate_calls_def log_Infof_def)
qed

theorem Solve_wait_error_no_validate_witness:
  "FindChallenge example_sys DNS01 example_authz =
     Inr \<lparr>Type = ''dns-01'', Token = ''tok-d'', KeyAuthorization = []\<rparr> \<and>
   GetKeyAuthorization (core example_challenge_stuck)
     (Token \<lparr>Type = ''dns-01'', Token = ''tok-d'', KeyAuthorization = []\<rparr>) = Inr ''tok-d.thumbprint'' \<and>
   fst (the (wait_for_propagation example_sys example_challenge_stuck example_authz
     (GetTargetedDomain example_sys example_authz) ''tok-d.thumbprint''
     (log_Infof ''[%s] acme: Trying to solve DNS-01'' [GetTargetedDomain example_sys example_authz] [])))
     = Some (Err ''propagation: time limit exceeded'') \<and>
   Solve example_sys example_challenge_stuck example_authz [] =
     wait_for_propagation example_sys example_challenge_stuck example_authz
       (GetTargetedDomain example_sys example_authz) ''tok-d.thumbprint''
       (log_Infof ''[%s] acme: Trying to solve DNS-01'' [GetTargetedDomain example_sys example_authz] []) \<and>
   validate_calls (snd (the (Solve example_sys example_challenge_stuck example_authz []))) = 0"
proof -
  let ?chlng = "\<lparr>Type = ''dns-01'', Token = ''tok-d'', KeyAuthorization = []\<rparr>"
  have find: "FindChallenge example_sys DNS01 example_authz = Inr ?chlng"
    by (rule example_lookup)
  have key: "GetKeyAuthorization (core example_challenge_stuck) (Token ?chlng) = Inr ''tok-d.thumbprint''"
    by (simp add: example_lookup)
  let ?W = "[EvLog ''[%s] acme: Trying to solve DNS-01'' [''example.com''],
      EvDnsQuery ''_acme-challenge.example.com.'' TypeCNAME [''192.0.2.53:53''] True,
      EvLog ''[%s] acme: Checking DNS record propagation using %+v''
        [''example.com'', ''192.0.2.53:53''],
      EvSleep 10,
      EvPreCheck ''example.com'' ''_acme-challenge.example.com.''
        (RawURLEncoding_EncodeToString (Sum256 (bytes_of_string ''tok-d.thumbprint''))),
      EvLog ''[%s] acme: Waiting for DNS record propagation.'' [''example.com''],
      EvSleep 10,
      EvPreCheck ''example.com'' ''_acme-challenge.example.com.''
        (RawURLEncoding_EncodeToString (Sum256 (bytes_of_string ''tok-d.thumbprint''))),
      EvLog ''[%s] acme: Waiting for DNS record propagation.'' [''example.com'']]"
  have wait: "wait_for_propagation example_sys example_challenge_stuck example_authz
     (GetTargetedDomain example_sys example_authz) ''tok-d.thumbprint''
     (log_Infof ''[%s] acme: Trying to solve DNS-01'' [GetTargetedDomain example_sys example_authz] [])
     = Some (Some (Err ''propagation: time limit exceeded''), ?W)"
    by (simp add: example_lookup log_Infof_def example_wait_stuck)
  from Solve_wait_error_no_validate [OF find key wait] find key wait
  show ?thesis
    by (simp add: validate_calls_def)
qed

text \<open>
  C8. In every run of \<open>Solve\<close> that returns, each call of the propagation check comes
  after a sleep of the polling interval that \<open>Solve\<close> itself has made since it was
  entered (for the first check) or since the check before (for the others). The
  history that \<open>Solve\<close> finds, with the publication of the record in it, is kept as it is.
\<close>

theorem Solve_sleeps_before_each_check:
  assumes "Solve s c authz w = Some (r, w')"
  shows "take (length w) w' = w \<and>
         paced (snd (propagation_timing c)) False (drop (length w) w')"
proof -
  let ?d = "snd (propagation_timing c)"
  let ?log = "EvLog ''[%s] acme: Trying to solve DNS-01'' [GetTargetedDomain s authz]"
  have "\<exists>es. w' = w @ es \<and> paced ?d False es"
  proof (cases "FindChallenge s DNS01 authz")
    case (Inl err)
    with assms have "w' = w @ [?log]" by (auto simp add: Solve_def Let_def log_Infof_def)
    then show ?thesis by simp
  next
    case find: (Inr chlng)
    show ?thesis
    proof (cases "GetKeyAuthorization (core c) (Token chlng)")
      case (Inl err)
      with find assms have "w' = w @ [?log]" by (auto simp add: Solve_def Let_def log_Infof_def)
      then show ?thesis by simp
    next
      case key: (Inr keyAuth)
      from assms find key obtain r5 w5
        where wait: "wait_for_propagation s c authz (GetTargetedDomain s authz) keyAuth (w @ [?log])
                       = Some (r5, w5)"
          and last: "w' = w5 \<or> (\<exists>chlng'. w' = w5 @ [EvValidate (GetTargetedDomain s authz) chlng'])"
        by (auto simp add: Solve_def Let_def log_Infof_def split: option.splits prod.splits)
      from wait_for_propagation_events [OF wait]
      obtain es where es: "w5 = (w @ [?log]) @ es" and p: "paced ?d False es"
        by blast
      have p5: "paced ?d False (?log # es)" using p by simp
      from last show ?thesis
      proof
        assume "w' = w5"
        with es p5 show ?thesis by simp
      next
        assume "\<exists>chlng'. w' = w5 @ [EvValidate (GetTargetedDomain s authz) chlng']"
        then obtain chlng' where "w' = w @ ((?log # es) @ [EvValidate (GetTargetedDomain s authz) chlng'])"
          using es by auto
        with paced_validate_suffix [OF p5] show ?thesis by blast
      qed
    qed
  qed
  then show ?thesis by auto
qed

text \<open>
  \<open>Solve\<close> returns whenever the polling interval is positive and the clock does not
  run backwards and advances by at least the time slept: the statements about the runs
  that return are then statements about every run. The clock of the examples is such
  a clock.
\<close>

lemma wait_loop_returns:
  assumes mono: "\<And>w e. time_Now s w \<le> time_Now s (w @ [e])"
    and sleep: "\<And>w d. time_Now s w + d \<le> time_Now s (w @ [EvSleep d])"
    and pos: "0 < interval"
  shows "wait_loop s msg deadline interval (propagation_check c domain info) w \<noteq> None"
proof (induction "nat (deadline - time_Now s w)" arbitrary: w rule: less_induct)
  case less
  let ?f = "propagation_check c domain info"
  let ?pre = "EvPreCheck domain (EffectiveFQDN info) (Value info)"
  let ?log = "EvLog ''[%s] acme: Waiting for DNS record propagation.'' [domain]"
  have one: "time_Now s w \<le> time_Now s (w @ [?pre])"
    by (rule mono)
  have "time_Now s (w @ [?pre]) \<le> time_Now s ((w @ [?pre]) @ [?log])"
    by (rule mono)
  with one have two: "time_Now s w \<le> time_Now s (w @ [?pre, ?log])"
    by simp
  have le: "time_Now s w \<le> time_Now s (snd (?f w))"
    using propagation_check_events [of c domain info w] one two by auto
  show ?case
  proof (cases "\<not> fst (fst (?f w)) \<and> time_Now s (snd (?f w)) < deadline")
    case False
    then show ?thesis
      by (subst wait_loop.simps) (auto simp add: Let_def split: option.splits)
  next
    case True
    have "time_Now s (snd (?f w)) + interval \<le> time_Now s (time_Sleep interval (snd (?f w)))"
      using sleep by (simp add: time_Sleep_def)
    with le pos True
    have "nat (deadline - time_Now s (time_Sleep interval (snd (?f w)))) < nat (deadline - time_Now s w)"
      by linarith
    from less [OF this] True show ?thesis
      by (subst wait_loop.simps) (simp add: Let_def)
  qed
qed

lemma Solve_returns:
  assumes mono: "\<And>w e. time_Now s w \<le> time_Now s (w @ [e])"
    and sleep: "\<And>w d. time_Now s w + d \<le> time_Now s (w @ [EvSleep d])"
    and pos: "0 < snd (propagation_timing c)"
  shows "Solve s c authz w \<noteq> None"
proof -
  have "wait_for_propagation s c authz domain keyAuth w1 \<noteq> None" for domain keyAuth w1
    using wait_loop_returns [OF mono sleep pos]
    by (simp add: wait_for_propagation_def wait_For_def Let_def split_beta)
  then have ret: "\<exists>r w5. wait_for_propagation s c authz (GetTargetedDomain s authz) keyAuth
       (log_Infof ''[%s] acme: Trying to solve DNS-01'' [GetTargetedDomain s authz] w) = Some (r, w5)"
    for keyAuth
    by auto
  show ?thesis
  proof (cases "FindChallenge s DNS01 authz")
    case (Inl err)
    then show ?thesis by (simp add: Solve_def Let_def)
  next
    case find: (Inr chlng)
    show ?thesis
    proof (cases "GetKeyAuthorization (core c) (Token chlng)")
      case (Inl err)
      with find show ?thesis by (simp add: Solve_def Let_def)
    next
      case (Inr keyAuth)
      from ret [of keyAuth] obtain r w5 where
        "wait_for_propagation s c authz (GetTargetedDomain s authz) keyAuth
           (log_Infof ''[%s] acme: Trying to solve DNS-01'' [GetTargetedDomain s authz] w) = Some (r, w5)"
        by blast
      with find Inr show ?thesis
        by (cases r) (simp_all add: Solve_def Let_def)
    qed
  qed
qed

lemma example_clock_append: "example_clock (w @ es) = example_clock w + example_clock es"
  by (induction w rule: example_clock.induct) simp_all

lemma example_Solve_returns:
  "0 < snd (propagation_timing c) \<Longrightarrow> Solve example_sys c authz w \<noteq> None"
proof (rule Solve_returns)
  fix w e
  show "time_Now example_sys w \<le> time_Now example_sys (w @ [e])"
    by (cases e) (simp_all add: example_sys_def example_clock_append)
next
  fix w d
  show "time_Now example_sys w + d \<le> time_Now example_sys (w @ [EvSleep d])"
    by (simp add: example_sys_def example_clock_append)
qed

text \<open>
  The wait of the example: the check is not satisfied at time 10 and satisfied at
  time 20, after the record was presented.
\<close>

lemma example_wait:
  "wait_for_propagation example_sys example_challenge example_authz ''example.com''
     ''tok-d.thumbprint''
     [EvPresent ''example.com'' ''tok-d'' ''tok-d.thumbprint'',
      EvLog ''[%s] acme: Trying to solve DNS-01'' [''example.com'']] =
   Some (None,
     [EvPresent ''example.com'' ''tok-d'' ''tok-d.thumbprint'',
      EvLog ''[%s] acme: Trying to solve DNS-01'' [''example.com''],
      EvDnsQuery ''_acme-challenge.example.com.'' TypeCNAME [''192.0.2.53:53''] True,
      EvLog ''[%s] acme: Checking DNS record propagation using %+v''
        [''example.com'', ''192.0.2.53:53''],
      EvSleep 10,
      EvPreCheck ''example.com'' ''_acme-challenge.example.com.''
        (RawURLEncoding_EncodeToString (Sum256 (bytes_of_string ''tok-d.thumbprint''))),
      EvLog ''[%s] acme: Waiting for DNS record propagation.'' [''example.com''],
      EvSleep 10,
      EvPreCheck ''example.com'' ''_acme-challenge.example.com.''
        (RawURLEncoding_EncodeToString (Sum256 (bytes_of_string ''tok-d.thumbprint'')))])"
  apply (simp add: wait_for_propagation_def example_GetChallengeInfo example_authz_def
      propagation_timing_def example_challenge_def
      example_provider_def wait_For_def log_Infof_def time_Sleep_def)
  apply (subst wait_loop.simps)
  apply (simp add: propagation_check_def Let_def log_Infof_def time_Sleep_def example_sys_def)
  apply (subst wait_loop.simps)
  apply (simp add: propagation_check_def Let_def log_Infof_def time_Sleep_def example_sys_def)
  done

lemma example_Solve:
  "Solve example_sys example_challenge example_authz
     [EvPresent ''example.com'' ''tok-d'' ''tok-d.thumbprint''] =
   Some (None,
     [EvPresent ''example.com'' ''tok-d'' ''tok-d.thumbprint'',
      EvLog ''[%s] acme: Trying to solve DNS-01'' [''example.com''],
      EvDnsQuery ''_acme-challenge.example.com.'' TypeCNAME [''192.0.2.53:53''] True,
      EvLog ''[%s] acme: Checking DNS record propagation using %+v''
        [''example.com'', ''192.0.2.53:53''],
      EvSleep 10,
      EvPreCheck ''example.com'' ''_acme-challenge.example.com.''
        (RawURLEncoding_EncodeToString (Sum256 (bytes_of_string ''tok-d.thumbprint''))),
      EvLog ''[%s] acme: Waiting for DNS record propagation.'' [''example.com''],
      EvSleep 10,
      EvPreCheck ''example.com'' ''_acme-challenge.example.com.''
        (RawURLEncoding_EncodeToString (Sum256 (bytes_of_string ''tok-d.thumbprint''))),
      EvValidate ''example.com''
        \<lparr>Type = ''dns-01'', Token = ''tok-d'', KeyAuthorization = ''tok-d.thumbprint''\<rparr>])"
  apply (simp add: Solve_def example_lookup log_Infof_def example_wait Let_def)
  apply (simp add: example_challenge_def)
  done

theorem Solve_sleeps_before_each_check_witness:
  "(\<exists>w'. Solve example_sys example_challenge example_authz
           [EvPresent ''example.com'' ''tok-d'' ''tok-d.thumbprint''] = Some (None, w') \<and>
         length (filter isPreCheck w') = 2 \<and>
         take (length [EvPresent ''example.com'' ''tok-d'' ''tok-d.thumbprint'']) w' =
           [EvPresent ''example.com'' ''tok-d'' ''tok-d.thumbprint''] \<and>
         paced (snd (propagation_timing example_challenge)) False
           (drop (length [EvPresent ''example.com'' ''tok-d'' ''tok-d.thumbprint'']) w')) \<and>
   snd (propagation_timing example_challenge) = 10"
proof -
  have "snd (propagation_timing example_challenge) = 10"
    by (simp add: propagation_timing_def example_challenge_def example_provider_def)
  with Solve_sleeps_before_each_check [OF example_Solve] example_Solve
  show ?thesis by simp
qed

subsection \<open>Errors of the provider\<close>

lemma contains_prefix: "contains sub (sub @ post)"
proof (cases "sub @ post")
  case Nil
  then show ?thesis by simp
next
  case (Cons c str)
  have "take (length sub) (sub @ post) = sub" by simp
  then have "take (length sub) (c # str) = sub" by (simp only: Cons)
  then have "contains sub (c # str)" by simp
  then show ?thesis by (simp only: Cons)
qed

lemma contains_append: "contains sub (pre @ sub @ post)"
  by (induction pre) (simp_all add: contains_prefix)

text \<open>
  C7, as the claim states it, fails: when the \<^verbatim>\<open>CleanUp\<close> of the provider fails,
  \<open>CleanUp\<close> returns the error of the provider as it is, and the text of that error need
  not name the domain.
\<close>

theorem CleanUp_error_not_wrapped_counterexample:
  "CleanUp example_sys example_challenge example_authz [] =
     Inr (Some (Err ''provider: zone update refused''),
          [EvLog ''[%s] acme: Cleaning DNS-01 challenge'' [''example.com''],
           EvCleanUp ''example.com'' ''tok-d'' ''tok-d.thumbprint'']) \<and>
   GetTargetedDomain example_sys example_authz = ''example.com'' \<and>
   \<not> contains ''example.com'' (Error (Err ''provider: zone update refused''))"
proof -
  have "provider example_challenge = Some example_provider"
    by (simp add: example_challenge_def)
  then have "CleanUp example_sys example_challenge example_authz [] =
     Inr (Provider_CleanUp example_provider
            [EvLog ''[%s] acme: Cleaning DNS-01 challenge'' [''example.com'']]
            (id_Value (Identifier example_authz)) ''tok-d'' ''tok-d.thumbprint'',
          [EvLog ''[%s] acme: Cleaning DNS-01 challenge'' [''example.com''],
           EvCleanUp (id_Value (Identifier example_authz)) ''tok-d'' ''tok-d.thumbprint''])"
    by (simp add: CleanUp_def example_lookup log_Infof_def)
  then show ?thesis
    by (simp add: example_lookup example_provider_def) (simp add: example_authz_def)
qed

text \<open>
  C7, amended. When the \<^verbatim>\<open>Present\<close> of the provider fails in \<open>PreSolve\<close>, the error
  returned to the caller wraps the error of the provider behind the prefix
  \<^verbatim>\<open>"[" + domain + "] acme: error presenting token: "\<close>, with the targeted domain: its
  text carries the domain. When the \<^verbatim>\<open>CleanUp\<close> of the provider fails in \<open>CleanUp\<close>, the
  error returned to the caller is the error of the provider, unchanged.
\<close>

theorem provider_errors_returned:
  assumes "FindChallenge s DNS01 authz = Inr chlng"
    and "provider c = Some p"
    and "GetKeyAuthorization (core c) (Token chlng) = Inr keyAuth"
  shows "(Present p (log_Infof ''[%s] acme: Preparing to solve DNS-01'' [GetTargetedDomain s authz] w)
            (id_Value (Identifier authz)) (Token chlng) keyAuth = Some err \<longrightarrow>
          fst (PreSolve s c authz w) =
            Some (Wrap (''['' @ GetTargetedDomain s authz @ ''] acme: error presenting token: '') err) \<and>
          contains (GetTargetedDomain s authz)
            (Error (Wrap (''['' @ GetTargetedDomain s authz @ ''] acme: error presenting token: '') err))) \<and>
         (Provider_CleanUp p (log_Infof ''[%s] acme: Cleaning DNS-01 challenge'' [GetTargetedDomain s authz] w)
            (id_Value (Identifier authz)) (Token chlng) keyAuth = Some err' \<longrightarrow>
          CleanUp s c authz w =
            Inr (Some err',
                 log_Infof ''[%s] acme: Cleaning DNS-01 challenge'' [GetTargetedDomain s authz] w
                 @ [EvCleanUp (id_Value (Identifier authz)) (Token chlng) keyAuth]))"
proof (intro conjI impI)
  assume "Present p (log_Infof ''[%s] acme: Preparing to solve DNS-01'' [GetTargetedDomain s authz] w)
            (id_Value (Identifier authz)) (Token chlng) keyAuth = Some err"
  with assms show "fst (PreSolve s c authz w) =
      Some (Wrap (''['' @ GetTargetedDomain s authz @ ''] acme: error presenting token: '') err)"
    by (simp add: PreSolve_def Let_def)
next
  show "contains (GetTargetedDomain s authz)
      (Error (Wrap (''['' @ GetTargetedDomain s authz @ ''] acme: error presenting token: '') err))"
    using contains_append [of "GetTargetedDomain s authz" "''[''"
        "''] acme: error presenting token: '' @ Error err"]
    by simp
next
  assume "Provider_CleanUp p (log_Infof ''[%s] acme: Cleaning DNS-01 challenge'' [GetTargetedDomain s authz] w)
            (id_Value (Identifier authz)) (Token chlng) keyAuth = Some err'"
  with assms show "CleanUp s c authz w =
            Inr (Some err',
                 log_Infof ''[%s] acme: Cleaning DNS-01 challenge'' [GetTargetedDomain s authz] w
                 @ [EvCleanUp (id_Value (Identifier authz)) (Token chlng) keyAuth])"
    by (simp add: CleanUp_def Let_def)
qed

theorem provider_errors_returned_witness:
  "FindChallenge example_sys DNS01 example_authz =
     Inr \<lparr>Type = ''dns-01'', Token = ''tok-d'', KeyAuthorization = []\<rparr> \<and>
   provider example_challenge = Some example_provider \<and>
   GetKeyAuthorization (core example_challenge)
     (Token \<lparr>Type = ''dns-01'', Token = ''tok-d'', KeyAuthorization = []\<rparr>) = Inr ''tok-d.thumbprint'' \<and>
   Present example_provider
     (log_Infof ''[%s] acme: Preparing to solve DNS-01'' [GetTargetedDomain example_sys example_authz] [])
     (id_Value (Identifier example_authz))
     (Token \<lparr>Type = ''dns-01'', Token = ''tok-d'', KeyAuthorization = []\<rparr>) ''tok-d.thumbprint'' =
     Some (Err ''provider: zone update refused'') \<and>
   fst (PreSolve example_sys example_challenge example_authz []) =
     Some (Wrap ''[example.com] acme: error presenting token: '' (Err ''provider: zone update refused'')) \<and>
   contains ''example.com''
     ''[example.com] acme: error presenting token: provider: zone update refused'' \<and>
   Provider_CleanUp example_provider
     (log_Infof ''[%s] acme: Cleaning DNS-01 challenge'' [GetTargetedDomain example_sys example_authz] [])
     (id_Value (Identifier example_authz))
     (Token \<lparr>Type = ''dns-01'', Token = ''tok-d'', KeyAuthorization = []\<rparr>) ''tok-d.thumbprint'' =
     Some (Err ''provider: zone update refused'') \<and>
   CleanUp example_sys example_challenge example_authz [] =
     Inr (Some (Err ''provider: zone update refused''),
          [EvLog ''[%s] acme: Cleaning DNS-01 challenge'' [''example.com''],
           EvCleanUp ''example.com'' ''tok-d'' ''tok-d.thumbprint''])"
proof -
  let ?chlng = "\<lparr>Type = ''dns-01'', Token = ''tok-d'', KeyAuthorization = []\<rparr>"
  have find: "FindChallenge example_sys DNS01 example_authz = Inr ?chlng"
    by (rule example_lookup)
  have prov: "provider example_challenge = Some example_provider"
    by (simp add: example_challenge_def)
  have key: "GetKeyAuthorization (core example_challenge) (Token ?chlng) = Inr ''tok-d.thumbprint''"
    by (simp add: example_lookup)
  have fails: "Present example_provider w domain token keyAuth = Some (Err ''provider: zone update refused'')"
    "Provider_CleanUp example_provider w domain token keyAuth = Some (Err ''provider: zone update refused'')"
    for w domain token keyAuth
    by (simp_all add: example_provider_def)
  have id: "id_Value (Identifier example_authz) = ''example.com''"
    by (simp add: example_authz_def)
  note dom = example_lookup(2)
  from provider_errors_returned [OF find prov key, of "[]" "Err ''provider: zone update refused''"
      "Err ''provider: zone update refused''"] fails
  have pre: "fst (PreSolve example_sys example_challenge example_authz []) =
     Some (Wrap ''[example.com] acme: error presenting token: '' (Err ''provider: zone update refused''))"
    and carries: "contains ''example.com''
     ''[example.com] acme: error presenting token: provider: zone update refused''"
    and clean: "CleanUp example_sys example_challenge example_authz [] =
     Inr (Some (Err ''provider: zone update refused''),
          [EvLog ''[%s] acme: Cleaning DNS-01 challenge'' [''example.com''],
           EvCleanUp ''example.com'' ''tok-d'' ''tok-d.thumbprint''])"
    by (simp_all add: dom id log_Infof_def)
  from find prov key fails pre carries clean show ?thesis by simp
qed

subsection \<open>Sequential\<close>

text \<open>
  C9. When the provider of a challenge implements the interface \<^verbatim>\<open>sequential\<close> and its
  method returns the delay \<open>d\<close>, \<open>Sequential\<close> returns \<open>(True, d)\<close>; when the provider does
  not implement it, or when there is no provider, \<open>Sequential\<close> returns \<open>(False, 0)\<close>.
\<close>

theorem Sequential_reports_capability:
  "(provider c = Some p \<and> Provider_Sequential p = Some d \<longrightarrow> Sequential c = (True, d)) \<and>
   (provider c = Some p \<and> Provider_Sequential p = None \<longrightarrow> Sequential c = (False, 0)) \<and>
   (provider c = None \<longrightarrow> Sequential c = (False, 0))"
  by (simp add: Sequential_def)

theorem Sequential_reports_capability_witness:
  "provider example_challenge = Some example_provider \<and>
   Provider_Sequential example_provider = Some 7 \<and>
   Sequential example_challenge = (True, 7) \<and>
   provider (example_challenge\<lparr>provider := Some (example_provider\<lparr>Provider_Sequential := None\<rparr>)\<rparr>) =
     Some (example_provider\<lparr>Provider_Sequential := None\<rparr>) \<and>
   Provider_Sequential (example_provider\<lparr>Provider_Sequential := None\<rparr>) = None \<and>
   Sequential (example_challenge\<lparr>provider := Some (example_provider\<lparr>Provider_Sequential := None\<rparr>)\<rparr>) =
     (False, 0) \<and>
   provider (example_challenge\<lparr>provider := None\<rparr>) = None \<and>
   Sequential (example_challenge\<lparr>provider := None\<rparr>) = (False, 0)"
proof -
  have a: "provider example_challenge = Some example_provider"
    by (simp add: example_challenge_def)
  have b: "Provider_Sequential example_provider = Some 7"
    by (simp add: example_provider_def)
  from Sequential_reports_capability [of example_challenge example_provider 7]
    Sequential_reports_capability
      [of "example_challenge\<lparr>provider := Some (example_provider\<lparr>Provider_Sequential := None\<rparr>)\<rparr>"
          "example_provider\<lparr>Provider_Sequential := None\<rparr>"]
    Sequential_reports_capability [of "example_challenge\<lparr>provider := None\<rparr>"]
    a b
  show ?thesis by simp
qed

end
